theory Spec2Isabelle
  imports
    Main
    "HOL-Library.Word"
    "HOL-Library.Char_ord"
    "HOL-Library.List_Lexorder"
    "HOL-Library.Multiset"
begin

unbundle bit_operations_syntax

text \<open>
  The ledger core of \<open>bicle.py\<close>: the item and block hashes, the genesis block, the
  pruning of the dedup index at load time, the chain check, the building of a block
  from candidate items, and the submission of a link. The globals \<open>sent_news\<close>,
  \<open>pending\<close> and \<open>blocks\<close> are one state value that every operation takes and returns;
  a raised exception is the left summand of the result; the clock is an argument.
  \<open>load_json\<close> and \<open>save_json\<close> only move the three stores between memory and disk
  (\<open>save_json\<close> swallows its errors), so the files are left out and \<open>init_storage\<close>
  starts from the loaded values.
\<close>

section \<open>Strings and SHA-256\<close>

text \<open>
  A Python \<open>str\<close> is modelled as a \<open>string\<close>: each \<open>char\<close> stands for the code point
  of the same number, so the model covers the code points below 256. Comparison of
  strings (\<open>sorted\<close>, \<open>>=\<close>) is Python's: lexicographic by code point, which is the
  order of \<open>List_Lexorder\<close> over \<open>Char_ord\<close>.

  \<open>s.encode('utf-8')\<close>: a code point below 128 is one byte, one from 128 to 255 two bytes.
\<close>

type_synonym u8 = "8 word"
type_synonym u32 = "32 word"

definition encode_utf8 :: "string \<Rightarrow> u8 list" where
  "encode_utf8 s =
     concat (map (\<lambda>c. let n = (of_char c :: nat)
                      in if n < 128 then [of_nat n]
                         else [of_nat (192 + n div 64), of_nat (128 + n mod 64)]) s)"

text \<open>
  \<open>hashlib.sha256(b).hexdigest()\<close> is the SHA-256 of FIPS 180-4 on 32-bit words:
  padding to a multiple of 64 bytes, big-endian words, the 64-word message schedule,
  64 rounds per block, and the digest printed as 64 lower-case hexadecimal digits.
\<close>

definition rotr :: "nat \<Rightarrow> u32 \<Rightarrow> u32" where
  "rotr n x = word_rotr n x"

definition Ch :: "u32 \<Rightarrow> u32 \<Rightarrow> u32 \<Rightarrow> u32" where
  "Ch x y z = (x AND y) XOR (NOT x AND z)"

definition Maj :: "u32 \<Rightarrow> u32 \<Rightarrow> u32 \<Rightarrow> u32" where
  "Maj x y z = (x AND y) XOR (x AND z) XOR (y AND z)"

definition Sigma0 :: "u32 \<Rightarrow> u32" where
  "Sigma0 x = rotr 2 x XOR rotr 13 x XOR rotr 22 x"

definition Sigma1 :: "u32 \<Rightarrow> u32" where
  "Sigma1 x = rotr 6 x XOR rotr 11 x XOR rotr 25 x"

definition sigma0 :: "u32 \<Rightarrow> u32" where
  "sigma0 x = rotr 7 x XOR rotr 18 x XOR drop_bit 3 x"

definition sigma1 :: "u32 \<Rightarrow> u32" where
  "sigma1 x = rotr 17 x XOR rotr 19 x XOR drop_bit 10 x"

definition K256 :: "u32 list" where
  "K256 = concat [
   [0x428a2f98, 0x71374491, 0xb5c0fbcf, 0xe9b5dba5, 0x3956c25b, 0x59f111f1, 0x923f82a4, 0xab1c5ed5],
   [0xd807aa98, 0x12835b01, 0x243185be, 0x550c7dc3, 0x72be5d74, 0x80deb1fe, 0x9bdc06a7, 0xc19bf174],
   [0xe49b69c1, 0xefbe4786, 0x0fc19dc6, 0x240ca1cc, 0x2de92c6f, 0x4a7484aa, 0x5cb0a9dc, 0x76f988da],
   [0x983e5152, 0xa831c66d, 0xb00327c8, 0xbf597fc7, 0xc6e00bf3, 0xd5a79147, 0x06ca6351, 0x14292967],
   [0x27b70a85, 0x2e1b2138, 0x4d2c6dfc, 0x53380d13, 0x650a7354, 0x766a0abb, 0x81c2c92e, 0x92722c85],
   [0xa2bfe8a1, 0xa81a664b, 0xc24b8b70, 0xc76c51a3, 0xd192e819, 0xd6990624, 0xf40e3585, 0x106aa070],
   [0x19a4c116, 0x1e376c08, 0x2748774c, 0x34b0bcb5, 0x391c0cb3, 0x4ed8aa4a, 0x5b9cca4f, 0x682e6ff3],
   [0x748f82ee, 0x78a5636f, 0x84c87814, 0x8cc70208, 0x90befffa, 0xa4506ceb, 0xbef9a3f7, 0xc67178f2]]"

type_synonym regs = "u32 \<times> u32 \<times> u32 \<times> u32 \<times> u32 \<times> u32 \<times> u32 \<times> u32"

definition H256 :: regs where
  "H256 = (0x6a09e667, 0xbb67ae85, 0x3c6ef372, 0xa54ff53a,
           0x510e527f, 0x9b05688c, 0x1f83d9ab, 0x5be0cd19)"

text \<open>
  The message schedule: \<open>win\<close> holds the sixteen most recent words, newest first, so
  \<open>W\<^sub>t\<^sub>-\<^sub>2\<close>, \<open>W\<^sub>t\<^sub>-\<^sub>7\<close>, \<open>W\<^sub>t\<^sub>-\<^sub>1\<^sub>5\<close> and \<open>W\<^sub>t\<^sub>-\<^sub>1\<^sub>6\<close> are at positions 1, 6, 14 and 15.
\<close>

fun schedule :: "nat \<Rightarrow> u32 list \<Rightarrow> u32 list" where
  "schedule 0 win = []"
| "schedule (Suc n) win =
     (let w = sigma1 (win ! 1) + win ! 6 + sigma0 (win ! 14) + win ! 15
      in w # schedule n (w # take 15 win))"

definition expand :: "u32 list \<Rightarrow> u32 list" where
  "expand m = m @ schedule 48 (rev m)"

fun round256 :: "regs \<Rightarrow> u32 \<times> u32 \<Rightarrow> regs" where
  "round256 (a, b, c, d, e, f, g, h) (k, w) =
     (let t1 = h + Sigma1 e + Ch e f g + k + w;
          t2 = Sigma0 a + Maj a b c
      in (t1 + t2, a, b, c, d + t1, e, f, g))"

fun compress :: "regs \<Rightarrow> u32 list \<Rightarrow> regs" where
  "compress (h0, h1, h2, h3, h4, h5, h6, h7) m =
     (case foldl round256 (h0, h1, h2, h3, h4, h5, h6, h7) (zip K256 (expand m)) of
        (a, b, c, d, e, f, g, h) \<Rightarrow>
          (h0 + a, h1 + b, h2 + c, h3 + d, h4 + e, h5 + f, h6 + g, h7 + h))"

fun be_words :: "u8 list \<Rightarrow> u32 list" where
  "be_words (a # b # c # d # bs) =
     (push_bit 24 (ucast a) OR push_bit 16 (ucast b) OR push_bit 8 (ucast c) OR ucast d)
       # be_words bs"
| "be_words bs = []"

definition be_bytes64 :: "64 word \<Rightarrow> u8 list" where
  "be_bytes64 n = map (\<lambda>i. ucast (drop_bit (8 * i) n)) [7, 6, 5, 4, 3, 2, 1, 0]"

definition sha_pad :: "u8 list \<Rightarrow> u8 list" where
  "sha_pad bs = bs @ [0x80] @ replicate ((119 - length bs mod 64) mod 64) 0
                  @ be_bytes64 (8 * of_nat (length bs))"

fun chunks :: "nat \<Rightarrow> u32 list \<Rightarrow> u32 list list" where
  "chunks 0 ws = []"
| "chunks (Suc n) ws = take 16 ws # chunks n (drop 16 ws)"

definition sha256 :: "u8 list \<Rightarrow> regs" where
  "sha256 bs =
     (let ws = be_words (sha_pad bs)
      in foldl compress H256 (chunks (length ws div 16) ws))"

definition hex_digit :: "nat \<Rightarrow> char" where
  "hex_digit n = ''0123456789abcdef'' ! n"

definition hex_word :: "u32 \<Rightarrow> string" where
  "hex_word w = map (\<lambda>i. hex_digit (unat (drop_bit (4 * i) w AND 15))) [7, 6, 5, 4, 3, 2, 1, 0]"

fun hexdigest :: "regs \<Rightarrow> string" where
  "hexdigest (h0, h1, h2, h3, h4, h5, h6, h7) =
     concat (map hex_word [h0, h1, h2, h3, h4, h5, h6, h7])"

definition sha256_hexdigest :: "string \<Rightarrow> string" where
  "sha256_hexdigest s = hexdigest (sha256 (encode_utf8 s))"

section \<open>Clock readings\<close>

text \<open>
  A \<open>datetime\<close> value: the fields Python's \<open>datetime\<close> carries, in its ranges
  (\<open>valid_datetime\<close>). \<open>isoformat\<close> is the rendering of a naive value,
  \<open>YYYY-MM-DDTHH:MM:SS\<close> followed by \<open>.ffffff\<close> when the microsecond is not 0;
  \<open>isoformat_utc\<close> that of a value aware of the UTC zone, which ends in \<open>+00:00\<close>.
\<close>

record datetime =
  year :: nat
  month :: nat
  day :: nat
  hour :: nat
  minute :: nat
  second :: nat
  microsecond :: nat

definition is_leap :: "nat \<Rightarrow> bool" where
  "is_leap y = (y mod 4 = 0 \<and> (y mod 100 \<noteq> 0 \<or> y mod 400 = 0))"

definition days_in_month :: "nat \<Rightarrow> nat \<Rightarrow> nat" where
  "days_in_month y m =
     (if m = 2 then (if is_leap y then 29 else 28)
      else if m = 4 \<or> m = 6 \<or> m = 9 \<or> m = 11 then 30 else 31)"

definition valid_datetime :: "datetime \<Rightarrow> bool" where
  "valid_datetime d =
     (1 \<le> year d \<and> year d \<le> 9999 \<and> 1 \<le> month d \<and> month d \<le> 12 \<and>
      1 \<le> day d \<and> day d \<le> days_in_month (year d) (month d) \<and>
      hour d < 24 \<and> minute d < 60 \<and> second d < 60 \<and> microsecond d < 1000000)"

definition digit_char :: "nat \<Rightarrow> char" where
  "digit_char d = char_of (48 + d)"

fun zpad :: "nat \<Rightarrow> nat \<Rightarrow> string" where
  "zpad 0 n = []"
| "zpad (Suc w) n = zpad w (n div 10) @ [digit_char (n mod 10)]"

definition iso_seconds :: "datetime \<Rightarrow> string" where
  "iso_seconds d =
     zpad 4 (year d) @ ''-'' @ zpad 2 (month d) @ ''-'' @ zpad 2 (day d) @ ''T'' @
     zpad 2 (hour d) @ '':'' @ zpad 2 (minute d) @ '':'' @ zpad 2 (second d)"

definition isoformat :: "datetime \<Rightarrow> string" where
  "isoformat d =
     iso_seconds d @ (if microsecond d \<noteq> 0 then ''.'' @ zpad 6 (microsecond d) else [])"

definition isoformat_utc :: "datetime \<Rightarrow> string" where
  "isoformat_utc d = isoformat d @ ''+00:00''"

text \<open>
  The order of two readings, as Python compares \<open>datetime\<close> values: field by field,
  from the year down to the microsecond.
\<close>

definition dt_fields :: "datetime \<Rightarrow> nat list" where
  "dt_fields d = [year d, month d, day d, hour d, minute d, second d, microsecond d]"

datatype py_error = TypeError | OverflowError

text \<open>
  \<open>d - timedelta(days=n)\<close>, one day at a time. Python raises \<open>OverflowError\<close> when the
  result would fall before the year 1.
\<close>

definition prev_day :: "datetime \<Rightarrow> py_error + datetime" where
  "prev_day d =
     (if 1 < day d then Inr (d\<lparr>day := day d - 1\<rparr>)
      else if 1 < month d
        then Inr (d\<lparr>month := month d - 1, day := days_in_month (year d) (month d - 1)\<rparr>)
      else if 1 < year d then Inr (d\<lparr>year := year d - 1, month := 12, day := 31\<rparr>)
      else Inl OverflowError)"

fun minus_days :: "datetime \<Rightarrow> nat \<Rightarrow> py_error + datetime" where
  "minus_days d 0 = Inr d"
| "minus_days d (Suc n) = (case prev_day d of Inl e \<Rightarrow> Inl e | Inr d' \<Rightarrow> minus_days d' n)"

text \<open>
  The two clocks of the program. \<open>datetime.now(timezone.utc)\<close> reads the UTC clock;
  \<open>datetime.now()\<close> reads the clock of the host's zone, which shows the same instant
  \<open>offset\<close> hours later (a whole number of hours between -24 and 24 here; the date
  steps with the hour).
\<close>

definition next_day :: "datetime \<Rightarrow> py_error + datetime" where
  "next_day d =
     (if day d < days_in_month (year d) (month d) then Inr (d\<lparr>day := day d + 1\<rparr>)
      else if month d < 12 then Inr (d\<lparr>month := month d + 1, day := 1\<rparr>)
      else if year d < 9999 then Inr (d\<lparr>year := year d + 1, month := 1, day := 1\<rparr>)
      else Inl OverflowError)"

definition local_reading :: "int \<Rightarrow> datetime \<Rightarrow> py_error + datetime" where
  "local_reading offset utc =
     (let h = int (hour utc) + offset in
      if h < 0 then
        (case prev_day utc of Inl e \<Rightarrow> Inl e | Inr d \<Rightarrow> Inr (d\<lparr>hour := nat (h + 24)\<rparr>))
      else if 24 \<le> h then
        (case next_day utc of Inl e \<Rightarrow> Inl e | Inr d \<Rightarrow> Inr (d\<lparr>hour := nat (h - 24)\<rparr>))
      else Inr (utc\<lparr>hour := nat h\<rparr>))"

section \<open>Data model\<close>

text \<open>
  A candidate item is the dict the callers of \<open>build_block_from_items\<close> assemble, with
  the keys \<open>title\<close>, \<open>link\<close>, \<open>source\<close>, \<open>published\<close> and \<open>summary\<close>. The link is a
  string; any other value may be Python's \<open>None\<close>, here \<open>None\<close>.
\<close>

record item =
  it_title :: "string option"
  it_link :: string
  it_source :: "string option"
  it_published :: "string option"
  it_summary :: "string option"

record entry =
  title :: string
  link :: string
  source :: "string option"
  published :: "string option"
  summary :: string
  iHash :: string

record block =
  block_number :: int
  timestamp :: string
  news :: "entry list"
  blockhash :: string
  previous :: "string option"

record pending_entry =
  p_title :: string
  p_link :: string
  p_source :: string
  p_published :: string
  submitter :: string
  added_at :: string
  p_iHash :: string

text \<open>
  The three globals \<open>sent_news\<close> (link to timestamp), \<open>pending\<close> (link to pending
  entry) and \<open>blocks\<close>. Values read from the JSON files are taken to have these types.
\<close>

record state =
  sent_news :: "string \<rightharpoonup> string"
  pending :: "string \<rightharpoonup> pending_entry"
  blocks :: "block list"

section \<open>Cryptographic functions\<close>

definition or_empty :: "string option \<Rightarrow> string" where
  "or_empty s = (case s of None \<Rightarrow> [] | Some v \<Rightarrow> v)"

definition create_iHash ::
  "string option \<Rightarrow> string option \<Rightarrow> string option \<Rightarrow> string option \<Rightarrow> string" where
  "create_iHash t l s p =
     (let data = or_empty t @ or_empty l @ or_empty s @ or_empty p
      in sha256_hexdigest data)"

definition compute_block_hash :: "string list \<Rightarrow> string" where
  "compute_block_hash iHashes =
     (let sorted_hashes = sort iHashes;
          concat_hashes = concat sorted_hashes
      in sha256_hexdigest concat_hashes)"

definition create_genesis_block :: block where
  "create_genesis_block =
     (let t = ''The Guardian 05/Nov/2025 - on the brink of a financial crisis for AIs in companies'';
          l = ''https://www.theguardian.com/business/2025/nov/05/global-stock-markets-fall-sharply-over-ai-bubble-fears'';
          s = ''The Guardian'';
          p = ''2025-11-05'';
          ihash = sha256_hexdigest (t @ l @ s @ p)
      in \<lparr>block_number = 0,
          timestamp = ''2025-11-05T11:20:00Z'',
          news = [\<lparr>title = t, link = l, source = Some s, published = Some p,
                   summary = ''Global stock markets fall sharply amid fears of an AI-driven financial bubble collapse.'',
                   iHash = ihash\<rparr>],
          blockhash = sha256_hexdigest ihash,
          previous = None\<rparr>)"

section \<open>Storage\<close>

text \<open>
  \<open>init_storage\<close>: the arguments are what \<open>load_json\<close> returned for the three files and
  the reading of \<open>datetime.now()\<close>. The dedup index keeps the entries whose timestamp
  string is not below the cutoff string; an empty ledger receives the genesis block.
\<close>

definition prune_sent :: "string \<Rightarrow> (string \<rightharpoonup> string) \<Rightarrow> (string \<rightharpoonup> string)" where
  "prune_sent cutoff sent =
     (\<lambda>k. case sent k of None \<Rightarrow> None | Some v \<Rightarrow> if cutoff \<le> v then Some v else None)"

definition init_storage ::
  "datetime \<Rightarrow> (string \<rightharpoonup> string) \<Rightarrow> (string \<rightharpoonup> pending_entry) \<Rightarrow> block list
     \<Rightarrow> py_error + state" where
  "init_storage now loaded_sent loaded_pending loaded_blocks =
     (case minus_days now 30 of
        Inl e \<Rightarrow> Inl e
      | Inr c \<Rightarrow>
          let cutoff = isoformat c
          in Inr \<lparr>sent_news = prune_sent cutoff loaded_sent,
                  pending = loaded_pending,
                  blocks = (if loaded_blocks = [] then loaded_blocks @ [create_genesis_block]
                            else loaded_blocks)\<rparr>)"

section \<open>Blockchain functions\<close>

text \<open>The loop of \<open>verify_chain\<close> over \<open>range(1, len(blocks))\<close>, from index \<open>i\<close> on.\<close>

function verify_loop :: "block list \<Rightarrow> nat \<Rightarrow> bool" where
  "verify_loop bs i =
     (if i < length bs then
        (if previous (bs ! i) \<noteq> Some (blockhash (bs ! (i - 1))) then False
         else if blockhash (bs ! i) \<noteq> compute_block_hash (map iHash (news (bs ! i))) then False
         else verify_loop bs (Suc i))
      else True)"
  by pat_completeness auto
termination
  by (relation "measure (\<lambda>(bs, i). length bs - i)") auto

declare verify_loop.simps [simp del]

definition verify_chain :: "block list \<Rightarrow> bool" where
  "verify_chain bs = (if length bs \<le> 1 then True else verify_loop bs 1)"

section \<open>Building a block\<close>

text \<open>
  The selection loop of \<open>build_block_from_items\<close>, with its two accumulators. Slicing
  the title or the summary raises \<open>TypeError\<close> when the value is \<open>None\<close>.
\<close>

fun select_items ::
  "(string \<rightharpoonup> string) \<Rightarrow> int \<Rightarrow> item list \<Rightarrow> entry list \<Rightarrow> string list
     \<Rightarrow> py_error + (entry list \<times> string list)" where
  "select_items sent max_news [] selected iHashes = Inr (selected, iHashes)"
| "select_items sent max_news (it # items) selected iHashes =
     (let l = it_link it in
      if sent l \<noteq> None then select_items sent max_news items selected iHashes
      else
        let ih = create_iHash (it_title it) (Some l) (it_source it) (it_published it) in
        if ih \<in> set iHashes then select_items sent max_news items selected iHashes
        else
          (case it_title it of
             None \<Rightarrow> Inl TypeError
           | Some t \<Rightarrow>
              (case it_summary it of
                 None \<Rightarrow> Inl TypeError
               | Some sm \<Rightarrow>
                   let selected' = selected @
                         [\<lparr>title = take 280 t, link = l, source = it_source it,
                           published = it_published it, summary = take 300 sm, iHash = ih\<rparr>];
                       iHashes' = iHashes @ [ih]
                   in if max_news \<le> int (length selected') then Inr (selected', iHashes')
                      else select_items sent max_news items selected' iHashes')))"

text \<open>The update loop: every selected link is stamped in the dedup index and leaves the pending map.\<close>

fun mark_sent ::
  "string \<Rightarrow> entry list \<Rightarrow> (string \<rightharpoonup> string) \<times> (string \<rightharpoonup> pending_entry)
     \<Rightarrow> (string \<rightharpoonup> string) \<times> (string \<rightharpoonup> pending_entry)" where
  "mark_sent ts [] (sent, pend) = (sent, pend)"
| "mark_sent ts (n # ns) (sent, pend) =
     mark_sent ts ns (sent(link n \<mapsto> ts),
                      if pend (link n) \<noteq> None then pend(link n := None) else pend)"

text \<open>
  \<open>build_block_from_items\<close>: \<open>now\<close> is the reading of \<open>datetime.now(timezone.utc)\<close>. The
  result is the raised error, or the returned block (\<open>None\<close> when nothing was selected)
  with the globals after the call.
\<close>

definition build_block_from_items ::
  "state \<Rightarrow> datetime \<Rightarrow> item list \<Rightarrow> int \<Rightarrow> py_error + (block option \<times> state)" where
  "build_block_from_items st now items max_news =
     (case select_items (sent_news st) max_news items [] [] of
        Inl e \<Rightarrow> Inl e
      | Inr (selected, iHashes) \<Rightarrow>
          if selected = [] then Inr (None, st)
          else
            let bn = int (length (blocks st)) + 1;
                ts = isoformat_utc (now\<lparr>microsecond := 0\<rparr>);
                bh = compute_block_hash iHashes;
                b = \<lparr>block_number = bn, timestamp = ts, news = selected, blockhash = bh,
                     previous = (if blocks st \<noteq> [] then Some (blockhash (last (blocks st)))
                                 else None)\<rparr>;
                (sent', pend') = mark_sent ts selected (sent_news st, pending st)
            in Inr (Some b, st\<lparr>sent_news := sent', pending := pend', blocks := blocks st @ [b]\<rparr>))"

text \<open>
  A run of builds that each return a block, from the requests (clock reading,
  candidates, \<open>max_news\<close>) in order; \<open>None\<close> when one of them raises or returns no block.
\<close>

fun build_all :: "state \<Rightarrow> (datetime \<times> item list \<times> int) list \<Rightarrow> state option" where
  "build_all st [] = Some st"
| "build_all st ((now, items, max_news) # rs) =
     (case build_block_from_items st now items max_news of
        Inr (Some b, st') \<Rightarrow> build_all st' rs
      | _ \<Rightarrow> None)"

section \<open>Submitting a link\<close>

text \<open>\<open>str.isspace\<close> on the code points below 256, and \<open>str.strip()\<close>.\<close>

definition isspace :: "char \<Rightarrow> bool" where
  "isspace c = (let n = (of_char c :: nat)
                in (9 \<le> n \<and> n \<le> 13) \<or> (28 \<le> n \<and> n \<le> 32) \<or> n = 133 \<or> n = 160)"

definition strip :: "string \<Rightarrow> string" where
  "strip s = rev (dropWhile isspace (rev (dropWhile isspace s)))"

text \<open>
  The \<open>/submit\<close> command. \<open>args\<close> is \<open>context.args\<close>, \<open>user\<close> the submitter's name,
  \<open>parsed\<close> the title, source and publication date that the feed lookup of the link
  delivered (\<open>None\<close> when it delivered no entry or failed; the defaults then stand), and
  \<open>now\<close> the reading of \<open>datetime.now(timezone.utc)\<close>. The handler answers with one
  message; the reply names which.
\<close>

datatype reply = Usage | AlreadyBroadcast | AlreadyPending | Submitted pending_entry

definition submit ::
  "state \<Rightarrow> string list \<Rightarrow> string \<Rightarrow> (string \<times> string \<times> string) option \<Rightarrow> datetime
     \<Rightarrow> reply \<times> state" where
  "submit st args user parsed now =
     (case args of
        [] \<Rightarrow> (Usage, st)
      | a # _ \<Rightarrow>
          let l = strip a;
              (t, s, p) = (case parsed of None \<Rightarrow> (l, ''user-submission'', [])
                           | Some tsp \<Rightarrow> tsp);
              ih = create_iHash (Some t) (Some l) (Some s) (Some p)
          in if sent_news st l \<noteq> None then (AlreadyBroadcast, st)
             else if pending st l \<noteq> None then (AlreadyPending, st)
             else
               let e = \<lparr>p_title = t, p_link = l, p_source = s, p_published = p,
                        submitter = user, added_at = isoformat_utc now, p_iHash = ih\<rparr>
               in (Submitted e, st\<lparr>pending := (pending st)(l \<mapsto> e)\<rparr>))"

section \<open>The chain check, pair by pair\<close>

lemma all_from_split:
  "(\<forall>j. i \<le> j \<and> j < n \<longrightarrow> P j) \<longleftrightarrow>
     (i < n \<longrightarrow> P i \<and> (\<forall>j. Suc i \<le> j \<and> j < n \<longrightarrow> P j))"
proof
  assume L: "\<forall>j. i \<le> j \<and> j < n \<longrightarrow> P j"
  show "i < n \<longrightarrow> P i \<and> (\<forall>j. Suc i \<le> j \<and> j < n \<longrightarrow> P j)"
  proof (intro impI conjI allI)
    assume "i < n"
    then show "P i" using L by simp
  next
    fix j
    assume "Suc i \<le> j \<and> j < n"
    then show "P j" using L by simp
  qed
next
  assume R: "i < n \<longrightarrow> P i \<and> (\<forall>j. Suc i \<le> j \<and> j < n \<longrightarrow> P j)"
  show "\<forall>j. i \<le> j \<and> j < n \<longrightarrow> P j"
  proof (intro allI impI)
    fix j
    assume a: "i \<le> j \<and> j < n"
    then have "i < n" by simp
    with R have Pi: "P i" and rest: "\<forall>j. Suc i \<le> j \<and> j < n \<longrightarrow> P j" by simp_all
    show "P j"
    proof (cases "j = i")
      case True
      then show ?thesis using Pi by simp
    next
      case False
      with a have "Suc i \<le> j \<and> j < n" by simp
      with rest show ?thesis by blast
    qed
  qed
qed

lemma verify_loop_iff:
  "verify_loop bs i \<longleftrightarrow>
     (\<forall>j. i \<le> j \<and> j < length bs \<longrightarrow>
        previous (bs ! j) = Some (blockhash (bs ! (j - 1))) \<and>
        blockhash (bs ! j) = compute_block_hash (map iHash (news (bs ! j))))"
proof (induction bs i rule: verify_loop.induct)
  case (1 bs i)
  define P where "P j \<longleftrightarrow> previous (bs ! j) = Some (blockhash (bs ! (j - 1))) \<and>
        blockhash (bs ! j) = compute_block_hash (map iHash (news (bs ! j)))" for j
  have step: "verify_loop bs i = (i < length bs \<longrightarrow> P i \<and> verify_loop bs (Suc i))"
    by (subst verify_loop.simps) (simp add: P_def)
  have IH: "verify_loop bs (Suc i) = (\<forall>j. Suc i \<le> j \<and> j < length bs \<longrightarrow> P j)"
    if "i < length bs" "P i"
    using 1 that by (simp add: P_def)
  have "verify_loop bs i = (\<forall>j. i \<le> j \<and> j < length bs \<longrightarrow> P j)"
    unfolding step all_from_split [of i] using IH by blast
  then show ?case by (simp only: P_def)
qed


lemma verify_chain_iff:
  "verify_chain bs \<longleftrightarrow>
     (\<forall>j. 1 \<le> j \<and> j < length bs \<longrightarrow>
        previous (bs ! j) = Some (blockhash (bs ! (j - 1))) \<and>
        blockhash (bs ! j) = compute_block_hash (map iHash (news (bs ! j))))"
  unfolding verify_chain_def verify_loop_iff by auto

lemma verify_chain_snoc:
  "verify_chain (bs @ [b]) \<longleftrightarrow>
     verify_chain bs \<and>
     (bs \<noteq> [] \<longrightarrow> previous b = Some (blockhash (last bs)) \<and>
                  blockhash b = compute_block_hash (map iHash (news b)))"
proof (cases "bs = []")
  case True
  then show ?thesis by (simp add: verify_chain_def)
next
  case False
  have split: "\<And>P. (\<forall>j. 1 \<le> j \<and> j < length (bs @ [b]) \<longrightarrow> P j) \<longleftrightarrow>
      (\<forall>j. 1 \<le> j \<and> j < length bs \<longrightarrow> P j) \<and> P (length bs)"
    using False by (auto simp: less_Suc_eq Suc_le_eq)
  show ?thesis
    unfolding verify_chain_iff split
    using False
    by (auto simp: nth_append last_conv_nth)
qed

section \<open>The selection loop\<close>

lemma select_items_hashes:
  "select_items sent mx items sel ihs = Inr (sel', ihs') \<Longrightarrow> ihs = map iHash sel
     \<Longrightarrow> ihs' = map iHash sel'"
  by (induction sent mx items sel ihs rule: select_items.induct)
     (auto simp: Let_def split: if_splits option.splits)

section \<open>The build\<close>

lemma mark_sent_fst:
  "fst (mark_sent ts ns (s, p)) = (\<lambda>k. if k \<in> link ` set ns then Some ts else s k)"
  by (induction ns arbitrary: s p) (auto simp: fun_eq_iff)

lemma mark_sent_snd:
  "snd (mark_sent ts ns (s, p)) = (\<lambda>k. if k \<in> link ` set ns then None else p k)"
  by (induction ns arbitrary: s p) (auto simp: fun_eq_iff)

lemma select_items_all_sent:
  "\<forall>it \<in> set items. sent (it_link it) \<noteq> None \<Longrightarrow>
     select_items sent mx items sel ihs = Inr (sel, ihs)"
  by (induction items) (auto simp: Let_def)

lemma build_SomeD:
  assumes "build_block_from_items st now items mx = Inr (Some b, st')"
  shows "\<exists>sel ihs. select_items (sent_news st) mx items [] [] = Inr (sel, ihs) \<and> sel \<noteq> [] \<and>
           b = \<lparr>block_number = int (length (blocks st)) + 1,
                timestamp = isoformat_utc (now\<lparr>microsecond := 0\<rparr>),
                news = sel, blockhash = compute_block_hash ihs,
                previous = (if blocks st \<noteq> [] then Some (blockhash (last (blocks st))) else None)\<rparr> \<and>
           st' = st\<lparr>sent_news := fst (mark_sent (timestamp b) sel (sent_news st, pending st)),
                    pending := snd (mark_sent (timestamp b) sel (sent_news st, pending st)),
                    blocks := blocks st @ [b]\<rparr>"
  using assms
  by (auto simp: build_block_from_items_def Let_def split: sum.splits prod.splits if_splits)

lemma build_keeps_chain:
  assumes "build_block_from_items st now items mx = Inr (Some b, st')"
    and "verify_chain (blocks st)"
  shows "verify_chain (blocks st')"
proof -
  from build_SomeD [OF assms(1)] obtain sel ihs where
    sel: "select_items (sent_news st) mx items [] [] = Inr (sel, ihs)" and
    b: "b = \<lparr>block_number = int (length (blocks st)) + 1,
                timestamp = isoformat_utc (now\<lparr>microsecond := 0\<rparr>),
                news = sel, blockhash = compute_block_hash ihs,
                previous = (if blocks st \<noteq> [] then Some (blockhash (last (blocks st))) else None)\<rparr>" and
    st': "st' = st\<lparr>sent_news := fst (mark_sent (timestamp b) sel (sent_news st, pending st)),
                    pending := snd (mark_sent (timestamp b) sel (sent_news st, pending st)),
                    blocks := blocks st @ [b]\<rparr>"
    by blast
  have "ihs = map iHash sel"
    using select_items_hashes [OF sel] by simp
  then have "blockhash b = compute_block_hash (map iHash (news b))"
    using b by simp
  moreover have "blocks st \<noteq> [] \<longrightarrow> previous b = Some (blockhash (last (blocks st)))"
    using b by simp
  moreover have "blocks st' = blocks st @ [b]"
    using st' by simp
  ultimately show ?thesis
    using assms(2) by (simp add: verify_chain_snoc)
qed

lemma build_all_keeps_chain:
  "build_all st rs = Some st' \<Longrightarrow> verify_chain (blocks st) \<Longrightarrow> verify_chain (blocks st')"
proof (induction st rs rule: build_all.induct)
  case (1 st)
  then show ?case by simp
next
  case (2 st now items mx rs)
  from "2.prems"(1) obtain b st1 where
    b: "build_block_from_items st now items mx = Inr (Some b, st1)" and
    rest: "build_all st1 rs = Some st'"
    by (auto split: sum.splits prod.splits option.splits)
  have "verify_chain (blocks st1)"
    using build_keeps_chain [OF b "2.prems"(2)] .
  then show ?case
    using "2.IH" b rest by simp
qed

lemma init_storage_seeds:
  "init_storage now ls lp [] = Inr st0 \<Longrightarrow> blocks st0 = [create_genesis_block]"
  by (auto simp: init_storage_def Let_def split: sum.splits)

lemma build_block_number:
  "build_block_from_items st now items max_news = Inr (Some b, st')
     \<Longrightarrow> block_number b = int (length (blocks st)) + 1"
  using build_SomeD by fastforce

lemma verify_chain_two:
  "verify_chain [b0, b1] \<longleftrightarrow>
     previous b1 = Some (blockhash b0) \<and> blockhash b1 = compute_block_hash (map iHash (news b1))"
  using verify_chain_snoc [of "[b0]" b1] by (simp add: verify_chain_def)

lemma genesis_has_news: "news create_genesis_block \<noteq> []"
  by (simp add: create_genesis_block_def Let_def)

lemma select_items_origin:
  "select_items sent mx items sel ihs = Inr (sel', ihs') \<Longrightarrow> e \<in> set sel' \<Longrightarrow>
     e \<in> set sel \<or>
     (\<exists>it \<in> set items. \<exists>t sm. it_title it = Some t \<and> it_summary it = Some sm \<and>
        e = \<lparr>title = take 280 t, link = it_link it, source = it_source it,
             published = it_published it, summary = take 300 sm,
             iHash = create_iHash (Some t) (Some (it_link it)) (it_source it) (it_published it)\<rparr>)"
  by (induction sent mx items sel ihs rule: select_items.induct)
     (auto simp: Let_def split: if_splits option.splits)

lemma strip_example: "strip ''https://a.example/1'' = ''https://a.example/1''"
  by (simp add: strip_def isspace_def)

section \<open>Timestamps in order\<close>

lemma append_less_same_length:
  fixes u v :: "'a::linorder list"
  shows "length u = length v \<Longrightarrow> (u @ x < v @ y \<longleftrightarrow> u < v \<or> (u = v \<and> x < y))"
  by (induction u v rule: list_induct2) auto

lemma length_zpad [simp]: "length (zpad w n) = w"
  by (induction w arbitrary: n) auto

lemma digit_char_less: "a < 10 \<Longrightarrow> b < 10 \<Longrightarrow> (digit_char a < digit_char b \<longleftrightarrow> a < b)"
  by (simp add: digit_char_def less_char_def)

lemma digit_char_eq: "a < 10 \<Longrightarrow> b < 10 \<Longrightarrow> (digit_char a = digit_char b \<longleftrightarrow> a = b)"
  using digit_char_less [of a b] digit_char_less [of b a] by (metis less_irrefl nat_neq_iff)

lemma zpad_eq: "a < 10 ^ w \<Longrightarrow> b < 10 ^ w \<Longrightarrow> (zpad w a = zpad w b \<longleftrightarrow> a = b)"
proof (induction w arbitrary: a b)
  case 0
  then show ?case by simp
next
  case (Suc w)
  have d: "a div 10 < 10 ^ w" "b div 10 < 10 ^ w"
    using Suc.prems by (simp_all add: less_mult_imp_div_less mult.commute)
  have "zpad (Suc w) a = zpad (Suc w) b \<longleftrightarrow> a div 10 = b div 10 \<and> a mod 10 = b mod 10"
    using Suc.IH [OF d] by (simp add: digit_char_eq)
  also have "\<dots> \<longleftrightarrow> a = b"
    by (metis div_mult_mod_eq)
  finally show ?case .
qed

lemma zpad_less: "a < 10 ^ w \<Longrightarrow> b < 10 ^ w \<Longrightarrow> (zpad w a < zpad w b \<longleftrightarrow> a < b)"
proof (induction w arbitrary: a b)
  case 0
  then show ?case by simp
next
  case (Suc w)
  have d: "a div 10 < 10 ^ w" "b div 10 < 10 ^ w"
    using Suc.prems by (simp_all add: less_mult_imp_div_less mult.commute)
  have "zpad (Suc w) a < zpad (Suc w) b \<longleftrightarrow>
      a div 10 < b div 10 \<or> (a div 10 = b div 10 \<and> a mod 10 < b mod 10)"
    using Suc.IH [OF d] zpad_eq [OF d]
    by (simp add: append_less_same_length digit_char_less)
  also have "\<dots> \<longleftrightarrow> a < b"
  proof -
    define qa ra qb rb where "qa = a div 10" and "ra = a mod 10" and "qb = b div 10" and "rb = b mod 10"
    have "a = 10 * qa + ra" "b = 10 * qb + rb" "ra < 10" "rb < 10"
      by (simp_all add: qa_def ra_def qb_def rb_def)
    then have "qa < qb \<or> (qa = qb \<and> ra < rb) \<longleftrightarrow> a < b"
      by arith
    then show ?thesis
      by (simp add: qa_def ra_def qb_def rb_def)
  qed
  finally show ?case .
qed


lemma iso_seconds_less:
  assumes "valid_datetime a" "valid_datetime b"
  shows "iso_seconds a < iso_seconds b \<longleftrightarrow>
     [year a, month a, day a, hour a, minute a, second a]
       < [year b, month b, day b, hour b, minute b, second b]"
proof -
  have m: "days_in_month y m < 100" for y m
    by (simp add: days_in_month_def)
  have ba: "year a < 10 ^ 4" "month a < 10 ^ 2" "day a < 10 ^ 2" "hour a < 10 ^ 2"
      "minute a < 10 ^ 2" "second a < 10 ^ 2"
    using assms(1) m [of "year a" "month a"] by (simp_all add: valid_datetime_def)
  have bb: "year b < 10 ^ 4" "month b < 10 ^ 2" "day b < 10 ^ 2" "hour b < 10 ^ 2"
      "minute b < 10 ^ 2" "second b < 10 ^ 2"
    using assms(2) m [of "year b" "month b"] by (simp_all add: valid_datetime_def)
  show ?thesis
    unfolding iso_seconds_def
    by (simp only: append_less_same_length length_zpad append_Cons append_Nil Cons_less_Cons
          zpad_less [OF ba(1) bb(1)] zpad_less [OF ba(2) bb(2)] zpad_less [OF ba(3) bb(3)]
          zpad_less [OF ba(4) bb(4)] zpad_less [OF ba(5) bb(5)] zpad_less [OF ba(6) bb(6)]
          zpad_eq [OF ba(1) bb(1)] zpad_eq [OF ba(2) bb(2)] zpad_eq [OF ba(3) bb(3)]
          zpad_eq [OF ba(4) bb(4)] zpad_eq [OF ba(5) bb(5)] zpad_eq [OF ba(6) bb(6)]
          append_Nil2 not_less_Nil)
       auto
qed

lemma iso_seconds_eq:
  assumes "valid_datetime a" "valid_datetime b"
  shows "iso_seconds a = iso_seconds b \<longleftrightarrow>
     [year a, month a, day a, hour a, minute a, second a]
       = [year b, month b, day b, hour b, minute b, second b]"
proof -
  have m: "days_in_month y m < 100" for y m
    by (simp add: days_in_month_def)
  have ba: "year a < 10 ^ 4" "month a < 10 ^ 2" "day a < 10 ^ 2" "hour a < 10 ^ 2"
      "minute a < 10 ^ 2" "second a < 10 ^ 2"
    using assms(1) m [of "year a" "month a"] by (simp_all add: valid_datetime_def)
  have bb: "year b < 10 ^ 4" "month b < 10 ^ 2" "day b < 10 ^ 2" "hour b < 10 ^ 2"
      "minute b < 10 ^ 2" "second b < 10 ^ 2"
    using assms(2) m [of "year b" "month b"] by (simp_all add: valid_datetime_def)
  show ?thesis
    unfolding iso_seconds_def
    by (simp add: zpad_eq [OF ba(1) bb(1)] zpad_eq [OF ba(2) bb(2)] zpad_eq [OF ba(3) bb(3)]
          zpad_eq [OF ba(4) bb(4)] zpad_eq [OF ba(5) bb(5)] zpad_eq [OF ba(6) bb(6)])
qed

lemma length_iso_seconds: "length (iso_seconds d) = 19"
  by (simp add: iso_seconds_def)

lemma stamp_less_cutoff:
  assumes "valid_datetime c" "valid_datetime t" "microsecond t = 0"
  shows "isoformat_utc t < isoformat c \<longleftrightarrow> dt_fields t < dt_fields c"
proof -
  have "isoformat_utc t < isoformat c \<longleftrightarrow>
      iso_seconds t < iso_seconds c \<or> (iso_seconds t = iso_seconds c \<and> microsecond c \<noteq> 0)"
    using assms(3)
    by (simp add: isoformat_utc_def isoformat_def append_less_same_length length_iso_seconds)
  also have "\<dots> \<longleftrightarrow> dt_fields t < dt_fields c"
    unfolding iso_seconds_less [OF assms(2,1)] iso_seconds_eq [OF assms(2,1)]
    using assms(3) by (auto simp: dt_fields_def)
  finally show ?thesis .
qed

lemma days_in_month_pos: "1 \<le> days_in_month y m"
  by (simp add: days_in_month_def)

lemma days_in_december: "days_in_month y 12 = 31"
  by (simp add: days_in_month_def)

lemma prev_day_valid:
  assumes "valid_datetime d" "prev_day d = Inr d'"
  shows "valid_datetime d'"
proof -
  from assms(1) have v: "1 \<le> year d" "year d \<le> 9999" "1 \<le> month d" "month d \<le> 12"
      "1 \<le> day d" "day d \<le> days_in_month (year d) (month d)"
      "hour d < 24" "minute d < 60" "second d < 60" "microsecond d < 1000000"
    unfolding valid_datetime_def by blast+
  consider (day) "1 < day d" | (month) "\<not> 1 < day d" "1 < month d"
    | (year) "\<not> 1 < day d" "\<not> 1 < month d" "1 < year d"
    | (none) "\<not> 1 < day d" "\<not> 1 < month d" "\<not> 1 < year d"
    by blast
  then show ?thesis
  proof cases
    case day
    then have "d' = d\<lparr>day := day d - 1\<rparr>"
      using assms(2) by (simp add: prev_day_def)
    then have sel: "year d' = year d" "month d' = month d" "day d' = day d - 1"
        "hour d' = hour d" "minute d' = minute d" "second d' = second d"
        "microsecond d' = microsecond d"
      by simp_all
    have "1 \<le> day d - 1" "day d - 1 \<le> days_in_month (year d) (month d)"
      using day v(6) by arith+
    then show ?thesis
      unfolding valid_datetime_def sel using v by blast
  next
    case month
    then have "d' = d\<lparr>month := month d - 1, day := days_in_month (year d) (month d - 1)\<rparr>"
      using assms(2) by (simp add: prev_day_def)
    then have sel: "year d' = year d" "month d' = month d - 1"
        "day d' = days_in_month (year d) (month d - 1)"
        "hour d' = hour d" "minute d' = minute d" "second d' = second d"
        "microsecond d' = microsecond d"
      by simp_all
    have "1 \<le> month d - 1" "month d - 1 \<le> 12"
      using month v(4) by arith+
    then show ?thesis
      unfolding valid_datetime_def sel
      using v days_in_month_pos [of "year d" "month d - 1"] by blast
  next
    case year
    then have "d' = d\<lparr>year := year d - 1, month := 12, day := 31\<rparr>"
      using assms(2) by (simp add: prev_day_def)
    then have sel: "year d' = year d - 1" "month d' = 12" "day d' = 31"
        "hour d' = hour d" "minute d' = minute d" "second d' = second d"
        "microsecond d' = microsecond d"
      by simp_all
    have "1 \<le> year d - 1" "year d - 1 \<le> 9999"
      using year v(2) by arith+
    moreover have "(1::nat) \<le> 12" "(12::nat) \<le> 12" "(1::nat) \<le> 31"
        "(31::nat) \<le> days_in_month (year d - 1) 12"
      by (simp_all add: days_in_december)
    ultimately show ?thesis
      unfolding valid_datetime_def sel using v by blast
  next
    case none
    then show ?thesis
      using assms(2) by (simp add: prev_day_def)
  qed
qed

lemma minus_days_valid:
  "valid_datetime d \<Longrightarrow> minus_days d n = Inr d' \<Longrightarrow> valid_datetime d'"
proof (induction d n rule: minus_days.induct)
  case (1 d)
  then show ?case by simp
next
  case (2 d n)
  from "2.prems"(2) obtain d1 where p: "prev_day d = Inr d1" and r: "minus_days d1 n = Inr d'"
    by (auto split: sum.splits)
  show ?case
    using "2.IH" [OF p prev_day_valid [OF "2.prems"(1) p] r] .
qed

text \<open>
  What the pruning does, in terms of the two readings it compares: the reading stored
  with the entry and the reading of the clock at load time minus 30 days.
\<close>

lemma prune_by_reading:
  assumes "init_storage now loaded_sent loaded_pending loaded_blocks = Inr st"
    and "valid_datetime now"
    and "loaded_sent k = Some (isoformat_utc t)"
    and "valid_datetime t" and "microsecond t = 0"
  shows "\<exists>c. minus_days now 30 = Inr c \<and>
           (dt_fields t < dt_fields c \<longrightarrow> sent_news st k = None) \<and>
           (dt_fields c \<le> dt_fields t \<longrightarrow> sent_news st k = Some (isoformat_utc t))"
proof -
  from assms(1) obtain c where c: "minus_days now 30 = Inr c" and
    st: "st = \<lparr>sent_news = prune_sent (isoformat c) loaded_sent, pending = loaded_pending,
               blocks = (if loaded_blocks = [] then loaded_blocks @ [create_genesis_block]
                         else loaded_blocks)\<rparr>"
    by (auto simp: init_storage_def Let_def split: sum.splits)
  have vc: "valid_datetime c"
    using minus_days_valid [OF assms(2) c] .
  have "sent_news st k = (if isoformat c \<le> isoformat_utc t then Some (isoformat_utc t) else None)"
    using assms(3) by (simp add: st prune_sent_def)
  moreover have "isoformat c \<le> isoformat_utc t \<longleftrightarrow> dt_fields c \<le> dt_fields t"
    using stamp_less_cutoff [OF vc assms(4,5)] by (simp add: not_less [symmetric])
  ultimately show ?thesis
    using c by (auto simp: not_le)
qed

section \<open>Digests and clock arithmetic on sample values\<close>

lemma sha256_abc:
  "sha256_hexdigest ''abc'' = ''ba7816bf8f01cfea414140de5dae2223b00361a396177a9cb410ff61f20015ad''"
  by code_simp

lemma sha256_empty:
  "sha256_hexdigest [] = ''e3b0c44298fc1c149afbf4c8996fb92427ae41e4649b934ca495991b7852b855''"
  by code_simp

lemma iHash_X:
  "create_iHash (Some ''X'') (Some ''https://a.example/1'') (Some ''user-submission'') (Some [])
     = ''8fca6d31cae250960d4f840e6a06f199a3eb67aad975939a5ca1a60759ae3874''"
  by code_simp

lemma iHash_Y:
  "create_iHash (Some ''Y'') (Some ''https://a.example/1'') (Some ''user-submission'') (Some [])
     = ''6576ca76f1895a9ffac620cb2d575a0922f9008ffddfb8676c88e19245e676e4''"
  by code_simp

lemma blockhash_X:
  "compute_block_hash [''8fca6d31cae250960d4f840e6a06f199a3eb67aad975939a5ca1a60759ae3874'']
     = ''4a27c8837dad7e0602e2a576aeb868509f4d229fcad9358df54cc980320ebb68''"
  by code_simp

lemma iHash_long:
  "create_iHash (Some (replicate 281 CHR ''a'')) (Some ''https://a.example/long'') None None
     = ''f1f8722c49ffcacad5232eb0c1dd480da0a06281fbcd437d6b1098b77818870f''"
  by code_simp

lemma iHash_long_stored:
  "create_iHash (Some (replicate 280 CHR ''a'')) (Some ''https://a.example/long'') None None
     = ''32db5959cf4bd776385f2634f4562f90a80a4f51c64782ddc69471b4dae34113''"
  by code_simp

lemma encode_utf8_latin1: "encode_utf8 [CHR ''a'', CHR 0xE9] = [0x61, 0xC3, 0xA9]"
  by code_simp

lemma blockhash_none:
  "compute_block_hash [] = ''e3b0c44298fc1c149afbf4c8996fb92427ae41e4649b934ca495991b7852b855''"
  by (simp add: compute_block_hash_def sha256_empty)

lemma minus_days_example:
  "minus_days \<lparr>year = 2025, month = 11, day = 6, hour = 12, minute = 0, second = 0, microsecond = 0\<rparr> 30
     = Inr \<lparr>year = 2025, month = 10, day = 7, hour = 12, minute = 0, second = 0, microsecond = 0\<rparr>"
  by code_simp

lemma local_reading_tokyo:
  "local_reading 9 \<lparr>year = 2025, month = 11, day = 6, hour = 12, minute = 0, second = 0, microsecond = 0\<rparr>
     = Inr \<lparr>year = 2025, month = 11, day = 6, hour = 21, minute = 0, second = 0, microsecond = 0\<rparr>"
  by code_simp

lemma local_reading_new_york:
  "local_reading (- 5) \<lparr>year = 2025, month = 11, day = 6, hour = 12, minute = 0, second = 0, microsecond = 0\<rparr>
     = Inr \<lparr>year = 2025, month = 11, day = 6, hour = 7, minute = 0, second = 0, microsecond = 0\<rparr>"
  by code_simp

lemma minus_days_tokyo:
  "minus_days \<lparr>year = 2025, month = 11, day = 6, hour = 21, minute = 0, second = 0, microsecond = 0\<rparr> 30
     = Inr \<lparr>year = 2025, month = 10, day = 7, hour = 21, minute = 0, second = 0, microsecond = 0\<rparr>"
  by code_simp

lemma minus_days_new_york:
  "minus_days \<lparr>year = 2025, month = 11, day = 6, hour = 7, minute = 0, second = 0, microsecond = 0\<rparr> 30
     = Inr \<lparr>year = 2025, month = 10, day = 7, hour = 7, minute = 0, second = 0, microsecond = 0\<rparr>"
  by code_simp

lemma local_reading_wraps:
  "local_reading 9 \<lparr>year = 2025, month = 12, day = 31, hour = 20, minute = 5, second = 0, microsecond = 0\<rparr>
     = Inr \<lparr>year = 2026, month = 1, day = 1, hour = 5, minute = 5, second = 0, microsecond = 0\<rparr>"
  "local_reading (- 5) \<lparr>year = 2025, month = 3, day = 1, hour = 2, minute = 5, second = 0, microsecond = 0\<rparr>
     = Inr \<lparr>year = 2025, month = 2, day = 28, hour = 21, minute = 5, second = 0, microsecond = 0\<rparr>"
  by code_simp+

section \<open>Claims\<close>

text \<open>
  C1. The claim: a build on a ledger of \<open>L\<close> blocks numbers the new block \<open>L\<close>. The
  code numbers it \<open>len(blocks) + 1\<close>: on the ledger that holds the genesis block
  (number 0) alone, the first mined block has the number 2.
\<close>

theorem first_mined_block_number:
  "let now = \<lparr>year = 2025, month = 11, day = 6, hour = 12, minute = 0, second = 0, microsecond = 0\<rparr>;
       a = \<lparr>it_title = Some ''X'', it_link = ''https://a.example/1'', it_source = Some ''user-submission'',
            it_published = Some [], it_summary = Some []\<rparr>
   in case init_storage now Map.empty Map.empty [] of
        Inl e \<Rightarrow> False
      | Inr st0 \<Rightarrow>
          (case build_block_from_items st0 now [a] 5 of
             Inr (Some b, st1) \<Rightarrow>
               map block_number (blocks st0) = [0] \<and> length (blocks st0) = 1 \<and> block_number b = 2
           | _ \<Rightarrow> False)"
  by (simp add: init_storage_def minus_days_example build_block_from_items_def Let_def
        prune_sent_def create_genesis_block_def split: prod.splits)

text \<open>
  C2. The claim: in every chain, replacing the \<open>news\<close> of any one block, the genesis
  block at index 0 included, without recomputing its \<open>blockhash\<close>, makes
  \<open>verify_chain\<close> false. The loop of \<open>verify_chain\<close> starts at index 1 and never reads
  the entries of block 0: on a chain that verifies, emptying the \<open>news\<close> of the genesis
  block leaves the result true. And at index 1 a replacement can make a chain verify
  that did not: a block whose entries are missing fails the check, and putting the
  entry back, with the \<open>blockhash\<close> left as it is, makes the check pass.
\<close>

theorem tamper_unnoticed:
  "verify_chain
     [create_genesis_block,
      \<lparr>block_number = 2, timestamp = ''2025-11-06T12:00:00+00:00'',
       news = [\<lparr>title = ''X'', link = ''https://a.example/1'', source = Some ''user-submission'',
                published = Some [], summary = [],
                iHash = ''8fca6d31cae250960d4f840e6a06f199a3eb67aad975939a5ca1a60759ae3874''\<rparr>],
       blockhash = ''4a27c8837dad7e0602e2a576aeb868509f4d229fcad9358df54cc980320ebb68'',
       previous = Some (blockhash create_genesis_block)\<rparr>] \<and>
   news create_genesis_block \<noteq> [] \<and>
   verify_chain
     [create_genesis_block\<lparr>news := []\<rparr>,
      \<lparr>block_number = 2, timestamp = ''2025-11-06T12:00:00+00:00'',
       news = [\<lparr>title = ''X'', link = ''https://a.example/1'', source = Some ''user-submission'',
                published = Some [], summary = [],
                iHash = ''8fca6d31cae250960d4f840e6a06f199a3eb67aad975939a5ca1a60759ae3874''\<rparr>],
       blockhash = ''4a27c8837dad7e0602e2a576aeb868509f4d229fcad9358df54cc980320ebb68'',
       previous = Some (blockhash create_genesis_block)\<rparr>] \<and>
   \<not> verify_chain
     [create_genesis_block,
      \<lparr>block_number = 2, timestamp = ''2025-11-06T12:00:00+00:00'',
       news = [],
       blockhash = ''4a27c8837dad7e0602e2a576aeb868509f4d229fcad9358df54cc980320ebb68'',
       previous = Some (blockhash create_genesis_block)\<rparr>] \<and>
   verify_chain
     [create_genesis_block,
      \<lparr>block_number = 2, timestamp = ''2025-11-06T12:00:00+00:00'',
       news = [],
       blockhash = ''4a27c8837dad7e0602e2a576aeb868509f4d229fcad9358df54cc980320ebb68'',
       previous = Some (blockhash create_genesis_block)\<rparr>
      \<lparr>news := [\<lparr>title = ''X'', link = ''https://a.example/1'', source = Some ''user-submission'',
                published = Some [], summary = [],
                iHash = ''8fca6d31cae250960d4f840e6a06f199a3eb67aad975939a5ca1a60759ae3874''\<rparr>]\<rparr>]"
  by (simp add: verify_chain_two blockhash_X blockhash_none genesis_has_news)

text \<open>
  C2, amended. For a block at an index \<open>i \<ge> 1\<close>, replacing its \<open>news\<close> by a list whose
  recomputed block hash differs from the stored \<open>blockhash\<close> makes \<open>verify_chain\<close>
  false; replacing the \<open>news\<close> of the block at index 0 never changes the result.
\<close>

theorem tamper_detected:
  "(1 \<le> i \<and> i < length bs \<and> compute_block_hash (map iHash ns) \<noteq> blockhash (bs ! i)
      \<longrightarrow> \<not> verify_chain (bs[i := (bs ! i)\<lparr>news := ns\<rparr>])) \<and>
   verify_chain (bs[0 := (bs ! 0)\<lparr>news := ns\<rparr>]) = verify_chain bs"
proof (intro conjI impI)
  assume a: "1 \<le> i \<and> i < length bs \<and> compute_block_hash (map iHash ns) \<noteq> blockhash (bs ! i)"
  show "\<not> verify_chain (bs[i := (bs ! i)\<lparr>news := ns\<rparr>])"
  proof
    assume "verify_chain (bs[i := (bs ! i)\<lparr>news := ns\<rparr>])"
    then have "1 \<le> i \<and> i < length (bs[i := (bs ! i)\<lparr>news := ns\<rparr>]) \<longrightarrow>
        blockhash (bs[i := (bs ! i)\<lparr>news := ns\<rparr>] ! i) =
        compute_block_hash (map iHash (news (bs[i := (bs ! i)\<lparr>news := ns\<rparr>] ! i)))"
      unfolding verify_chain_iff by blast
    then show False using a by simp
  qed
next
  have bh: "blockhash (bs[0 := (bs ! 0)\<lparr>news := ns\<rparr>] ! k) = blockhash (bs ! k)"
    if "k < length bs" for k
    using that by (cases k) simp_all
  have "\<And>j. 1 \<le> j \<Longrightarrow> j < length bs \<Longrightarrow>
      previous (bs[0 := (bs ! 0)\<lparr>news := ns\<rparr>] ! j) = previous (bs ! j) \<and>
      blockhash (bs[0 := (bs ! 0)\<lparr>news := ns\<rparr>] ! (j - 1)) = blockhash (bs ! (j - 1)) \<and>
      blockhash (bs[0 := (bs ! 0)\<lparr>news := ns\<rparr>] ! j) = blockhash (bs ! j) \<and>
      news (bs[0 := (bs ! 0)\<lparr>news := ns\<rparr>] ! j) = news (bs ! j)"
    by (simp add: bh)
  then show "verify_chain (bs[0 := (bs ! 0)\<lparr>news := ns\<rparr>]) = verify_chain bs"
    unfolding verify_chain_iff by auto
qed

theorem tamper_detected_witness:
  "let b1 = \<lparr>block_number = 2, timestamp = ''2025-11-06T12:00:00+00:00'',
             news = [\<lparr>title = ''X'', link = ''https://a.example/1'', source = Some ''user-submission'',
                      published = Some [], summary = [],
                      iHash = ''8fca6d31cae250960d4f840e6a06f199a3eb67aad975939a5ca1a60759ae3874''\<rparr>],
             blockhash = ''4a27c8837dad7e0602e2a576aeb868509f4d229fcad9358df54cc980320ebb68'',
             previous = Some (blockhash create_genesis_block)\<rparr>;
       bs = [create_genesis_block, b1]
   in verify_chain bs \<and> (1::nat) < length bs \<and>
      compute_block_hash (map iHash []) \<noteq> blockhash (bs ! 1) \<and>
      \<not> verify_chain (bs[1 := (bs ! 1)\<lparr>news := []\<rparr>])"
proof -
  define b1 where "b1 = \<lparr>block_number = 2, timestamp = ''2025-11-06T12:00:00+00:00'',
             news = [\<lparr>title = ''X'', link = ''https://a.example/1'', source = Some ''user-submission'',
                      published = Some [], summary = [],
                      iHash = ''8fca6d31cae250960d4f840e6a06f199a3eb67aad975939a5ca1a60759ae3874''\<rparr>],
             blockhash = ''4a27c8837dad7e0602e2a576aeb868509f4d229fcad9358df54cc980320ebb68'',
             previous = Some (blockhash create_genesis_block)\<rparr>"
  define bs where "bs = [create_genesis_block, b1]"
  have v: "verify_chain bs"
    by (simp add: bs_def b1_def verify_chain_two blockhash_X)
  have h: "1 \<le> (1::nat) \<and> 1 < length bs \<and> compute_block_hash (map iHash []) \<noteq> blockhash (bs ! 1)"
    by (simp add: bs_def b1_def compute_block_hash_def sha256_empty)
  from tamper_detected [of 1 bs "[]"] h
  have "\<not> verify_chain (bs[1 := (bs ! 1)\<lparr>news := []\<rparr>])" by blast
  with v h show ?thesis
    unfolding bs_def b1_def by (simp add: Let_def)
qed

text \<open>
  C3. A ledger that starts from the seeded genesis block and grows by builds that each
  return a block passes \<open>verify_chain\<close>: every block after the first names the
  \<open>blockhash\<close> of the block before it as \<open>previous\<close>, and its own \<open>blockhash\<close> is
  the hash recomputed from the \<open>iHash\<close> values of its entries.
\<close>

theorem verify_chain_after_builds:
  assumes "init_storage now loaded_sent loaded_pending [] = Inr st0"
    and "build_all st0 requests = Some st"
  shows "verify_chain (blocks st) \<and>
         (\<forall>j. 1 \<le> j \<and> j < length (blocks st) \<longrightarrow>
            previous (blocks st ! j) = Some (blockhash (blocks st ! (j - 1))) \<and>
            blockhash (blocks st ! j) = compute_block_hash (map iHash (news (blocks st ! j))))"
proof -
  have "verify_chain (blocks st0)"
    using init_storage_seeds [OF assms(1)] by (simp add: verify_chain_def)
  then have "verify_chain (blocks st)"
    using build_all_keeps_chain [OF assms(2)] by simp
  then show ?thesis
    using verify_chain_iff [of "blocks st"] by simp
qed

theorem verify_chain_after_builds_witness:
  "let now = \<lparr>year = 2025, month = 11, day = 6, hour = 12, minute = 0, second = 0, microsecond = 0\<rparr>;
       a = \<lparr>it_title = Some ''X'', it_link = ''https://a.example/1'', it_source = Some ''user-submission'',
            it_published = Some [], it_summary = Some []\<rparr>;
       b = \<lparr>it_title = Some ''Z'', it_link = ''https://b.example/2'', it_source = Some ''Wired'',
            it_published = None, it_summary = Some ''...''\<rparr>
   in case init_storage now Map.empty Map.empty [] of
        Inl e \<Rightarrow> False
      | Inr st0 \<Rightarrow>
          (case build_all st0 [(now, [a], 5), (now, [a, b], 5)] of
             None \<Rightarrow> False
           | Some st \<Rightarrow> length (blocks st) = 3 \<and> verify_chain (blocks st))"
proof -
  define now where "now = \<lparr>year = 2025, month = 11, day = 6, hour = 12, minute = 0, second = 0,
      microsecond = (0::nat)\<rparr>"
  define a where "a = \<lparr>it_title = Some ''X'', it_link = ''https://a.example/1'',
      it_source = Some ''user-submission'', it_published = Some [], it_summary = Some []\<rparr>"
  define b where "b = \<lparr>it_title = Some ''Z'', it_link = ''https://b.example/2'',
      it_source = Some ''Wired'', it_published = None, it_summary = Some ''...''\<rparr>"
  obtain st0 where i: "init_storage now Map.empty Map.empty [] = Inr st0"
    by (simp add: init_storage_def now_def minus_days_example)
  have s0: "sent_news st0 = Map.empty" "blocks st0 = [create_genesis_block]"
    using i by (auto simp: init_storage_def now_def minus_days_example prune_sent_def)
  obtain st where r: "build_all st0 [(now, [a], 5), (now, [a, b], 5)] = Some st"
    and l: "length (blocks st) = 3"
    by (simp add: build_block_from_items_def Let_def s0 a_def b_def split: prod.splits)
  from verify_chain_after_builds [OF i r] have "verify_chain (blocks st)" by simp
  with i r l show ?thesis
    unfolding now_def a_def b_def by (simp add: Let_def)
qed

text \<open>
  C4. \<open>compute_block_hash\<close> gives the same digest for a list of digests and for any
  permutation of it: the result depends on the multiset of the inputs only.
\<close>

theorem compute_block_hash_permutation:
  "mset ys = mset xs \<Longrightarrow> compute_block_hash ys = compute_block_hash xs"
  unfolding compute_block_hash_def
  by (metis properties_for_sort sorted_sort mset_sort)

theorem compute_block_hash_permutation_witness:
  "mset [''c'', ''a'', ''b''] = mset [''a'', ''b'', ''c''] \<and>
   compute_block_hash [''c'', ''a'', ''b''] = compute_block_hash [''a'', ''b'', ''c'']"
proof -
  have m: "mset [''c'', ''a'', ''b''] = mset [''a'', ''b'', ''c'']" by simp
  from compute_block_hash_permutation [OF m] m show ?thesis by simp
qed

text \<open>
  C5. The claim: the \<open>iHash\<close> of a stored entry is the SHA-256 of its stored title,
  link, source and published, also when the title was cut to 280 characters. The
  build hashes the candidate's title before it cuts it: for a title of 281 characters
  the stored \<open>iHash\<close> is not the digest of the stored fields.
\<close>

theorem truncated_title_hash_differs:
  "build_block_from_items
     \<lparr>sent_news = Map.empty, pending = Map.empty, blocks = [create_genesis_block]\<rparr>
     \<lparr>year = 2025, month = 11, day = 6, hour = 12, minute = 0, second = 0, microsecond = 0\<rparr>
     [\<lparr>it_title = Some (replicate 281 CHR ''a''), it_link = ''https://a.example/long'',
       it_source = None, it_published = None, it_summary = Some []\<rparr>]
     5
   = Inr (Some
       \<lparr>block_number = 2, timestamp = ''2025-11-06T12:00:00+00:00'',
        news = [\<lparr>title = replicate 280 CHR ''a'', link = ''https://a.example/long'',
                 source = None, published = None, summary = [],
                 iHash = ''f1f8722c49ffcacad5232eb0c1dd480da0a06281fbcd437d6b1098b77818870f''\<rparr>],
        blockhash = compute_block_hash
                      [''f1f8722c49ffcacad5232eb0c1dd480da0a06281fbcd437d6b1098b77818870f''],
        previous = Some (blockhash create_genesis_block)\<rparr>,
       \<lparr>sent_news = [''https://a.example/long'' \<mapsto> ''2025-11-06T12:00:00+00:00''],
        pending = Map.empty,
        blocks = [create_genesis_block,
          \<lparr>block_number = 2, timestamp = ''2025-11-06T12:00:00+00:00'',
           news = [\<lparr>title = replicate 280 CHR ''a'', link = ''https://a.example/long'',
                    source = None, published = None, summary = [],
                    iHash = ''f1f8722c49ffcacad5232eb0c1dd480da0a06281fbcd437d6b1098b77818870f''\<rparr>],
           blockhash = compute_block_hash
                         [''f1f8722c49ffcacad5232eb0c1dd480da0a06281fbcd437d6b1098b77818870f''],
           previous = Some (blockhash create_genesis_block)\<rparr>]\<rparr>) \<and>
   sha256_hexdigest (replicate 280 CHR ''a'' @ ''https://a.example/long'' @ or_empty None @ or_empty None)
     = ''32db5959cf4bd776385f2634f4562f90a80a4f51c64782ddc69471b4dae34113'' \<and>
   ''f1f8722c49ffcacad5232eb0c1dd480da0a06281fbcd437d6b1098b77818870f''
     \<noteq> ''32db5959cf4bd776385f2634f4562f90a80a4f51c64782ddc69471b4dae34113''"
proof -
  have ts: "isoformat_utc \<lparr>year = 2025, month = 11, day = 6, hour = 12, minute = 0, second = 0,
      microsecond = 0\<rparr> = ''2025-11-06T12:00:00+00:00''"
    by code_simp
  have tk: "take 280 (replicate 281 CHR ''a'') = replicate 280 CHR ''a''"
    by simp
  have stored: "sha256_hexdigest
      (replicate 280 CHR ''a'' @ ''https://a.example/long'' @ or_empty None @ or_empty None)
     = ''32db5959cf4bd776385f2634f4562f90a80a4f51c64782ddc69471b4dae34113''"
    using iHash_long_stored by (simp add: create_iHash_def or_empty_def)
  have neq: "''f1f8722c49ffcacad5232eb0c1dd480da0a06281fbcd437d6b1098b77818870f''
     \<noteq> ''32db5959cf4bd776385f2634f4562f90a80a4f51c64782ddc69471b4dae34113''"
    by simp
  have build: "build_block_from_items
     \<lparr>sent_news = Map.empty, pending = Map.empty, blocks = [create_genesis_block]\<rparr>
     \<lparr>year = 2025, month = 11, day = 6, hour = 12, minute = 0, second = 0, microsecond = 0\<rparr>
     [\<lparr>it_title = Some (replicate 281 CHR ''a''), it_link = ''https://a.example/long'',
       it_source = None, it_published = None, it_summary = Some []\<rparr>]
     5
   = Inr (Some
       \<lparr>block_number = 2, timestamp = ''2025-11-06T12:00:00+00:00'',
        news = [\<lparr>title = replicate 280 CHR ''a'', link = ''https://a.example/long'',
                 source = None, published = None, summary = [],
                 iHash = ''f1f8722c49ffcacad5232eb0c1dd480da0a06281fbcd437d6b1098b77818870f''\<rparr>],
        blockhash = compute_block_hash
                      [''f1f8722c49ffcacad5232eb0c1dd480da0a06281fbcd437d6b1098b77818870f''],
        previous = Some (blockhash create_genesis_block)\<rparr>,
       \<lparr>sent_news = [''https://a.example/long'' \<mapsto> ''2025-11-06T12:00:00+00:00''],
        pending = Map.empty,
        blocks = [create_genesis_block,
          \<lparr>block_number = 2, timestamp = ''2025-11-06T12:00:00+00:00'',
           news = [\<lparr>title = replicate 280 CHR ''a'', link = ''https://a.example/long'',
                    source = None, published = None, summary = [],
                    iHash = ''f1f8722c49ffcacad5232eb0c1dd480da0a06281fbcd437d6b1098b77818870f''\<rparr>],
           blockhash = compute_block_hash
                         [''f1f8722c49ffcacad5232eb0c1dd480da0a06281fbcd437d6b1098b77818870f''],
           previous = Some (blockhash create_genesis_block)\<rparr>]\<rparr>)"
    unfolding build_block_from_items_def select_items.simps Let_def
    by (simp add: ts tk iHash_long)
  from build stored neq show ?thesis by blast
qed

text \<open>
  C5, amended. Every entry of a built block comes from a candidate: it carries the
  candidate's link, source and published, the first 280 characters of its title, and as
  \<open>iHash\<close> the SHA-256 of the candidate's whole title, link, source and published
  (\<open>None\<close> read as the empty string). When the title has at most 280 characters this
  is the digest of the stored fields.
\<close>

theorem stored_iHash:
  assumes "build_block_from_items st now items max_news = Inr (Some b, st')"
    and "e \<in> set (news b)"
  shows "\<exists>it \<in> set items.
           link e = it_link it \<and> source e = it_source it \<and> published e = it_published it \<and>
           title e = take 280 (or_empty (it_title it)) \<and>
           iHash e = sha256_hexdigest (or_empty (it_title it) @ it_link it @
                       or_empty (it_source it) @ or_empty (it_published it)) \<and>
           (length (or_empty (it_title it)) \<le> 280 \<longrightarrow>
              iHash e = sha256_hexdigest (title e @ link e @
                          or_empty (source e) @ or_empty (published e)))"
proof -
  from build_SomeD [OF assms(1)] obtain sel ihs where
    sel: "select_items (sent_news st) max_news items [] [] = Inr (sel, ihs)" and
    n: "news b = sel"
    by auto
  from select_items_origin [OF sel, of e] assms(2) n
  obtain it t sm where it: "it \<in> set items" "it_title it = Some t" and
    e: "e = \<lparr>title = take 280 t, link = it_link it, source = it_source it,
             published = it_published it, summary = take 300 sm,
             iHash = create_iHash (Some t) (Some (it_link it)) (it_source it) (it_published it)\<rparr>"
    by auto
  show ?thesis
    using it e by (intro bexI [of _ it]) (auto simp: create_iHash_def or_empty_def)
qed

theorem stored_iHash_witness:
  "let st = \<lparr>sent_news = Map.empty, pending = Map.empty, blocks = [create_genesis_block]\<rparr>;
       now = \<lparr>year = 2025, month = 11, day = 6, hour = 12, minute = 0, second = 0, microsecond = 0\<rparr>;
       a = \<lparr>it_title = Some ''X'', it_link = ''https://a.example/1'', it_source = Some ''user-submission'',
            it_published = None, it_summary = Some []\<rparr>
   in case build_block_from_items st now [a] 5 of
        Inr (Some b, st') \<Rightarrow>
          map title (news b) = [''X''] \<and> map published (news b) = [None] \<and>
          map iHash (news b) = [sha256_hexdigest (''X'' @ ''https://a.example/1'' @ ''user-submission'' @ [])] \<and>
          map iHash (news b) = [''8fca6d31cae250960d4f840e6a06f199a3eb67aad975939a5ca1a60759ae3874'']
      | _ \<Rightarrow> False"
proof -
  define st where "st = \<lparr>sent_news = (Map.empty :: string \<rightharpoonup> string),
      pending = (Map.empty :: string \<rightharpoonup> pending_entry), blocks = [create_genesis_block]\<rparr>"
  define now where "now = \<lparr>year = 2025, month = 11, day = 6, hour = 12, minute = 0, second = 0,
      microsecond = (0::nat)\<rparr>"
  define a where "a = \<lparr>it_title = Some ''X'', it_link = ''https://a.example/1'',
      it_source = Some ''user-submission'', it_published = None, it_summary = Some []\<rparr>"
  obtain b st' e where r: "build_block_from_items st now [a] 5 = Inr (Some b, st')"
    and n: "news b = [e]" and t: "title e = ''X''" and p: "published e = None"
    by (simp add: build_block_from_items_def Let_def st_def a_def split: prod.splits)
  from stored_iHash [OF r, of e] n
  have h: "iHash e = sha256_hexdigest (''X'' @ ''https://a.example/1'' @ ''user-submission'' @ [])"
    by (simp add: a_def or_empty_def)
  have "sha256_hexdigest (''X'' @ ''https://a.example/1'' @ ''user-submission'' @ []) =
      ''8fca6d31cae250960d4f840e6a06f199a3eb67aad975939a5ca1a60759ae3874''"
    using iHash_X by (simp add: create_iHash_def or_empty_def)
  with r n t p h show ?thesis
    unfolding st_def now_def a_def by (simp add: Let_def)
qed

text \<open>
  C6. After a build that returns a block, every entry of the block has its link in the
  dedup index, mapped to the block's timestamp, and no longer in the pending map; the
  block's \<open>previous\<close> is the \<open>blockhash\<close> of the block that was last before the
  append, and the block is appended to the ledger.
\<close>

theorem build_marks_selected:
  assumes "build_block_from_items st now items max_news = Inr (Some b, st')"
  shows "(\<forall>n \<in> set (news b).
            sent_news st' (link n) = Some (timestamp b) \<and> pending st' (link n) = None) \<and>
         (blocks st \<noteq> [] \<longrightarrow> previous b = Some (blockhash (last (blocks st)))) \<and>
         blocks st' = blocks st @ [b]"
proof -
  from build_SomeD [OF assms] obtain sel ihs where
    b: "b = \<lparr>block_number = int (length (blocks st)) + 1,
                timestamp = isoformat_utc (now\<lparr>microsecond := 0\<rparr>),
                news = sel, blockhash = compute_block_hash ihs,
                previous = (if blocks st \<noteq> [] then Some (blockhash (last (blocks st))) else None)\<rparr>" and
    st': "st' = st\<lparr>sent_news := fst (mark_sent (timestamp b) sel (sent_news st, pending st)),
                    pending := snd (mark_sent (timestamp b) sel (sent_news st, pending st)),
                    blocks := blocks st @ [b]\<rparr>"
    by blast
  have n: "news b = sel" using b by simp
  have "\<forall>n \<in> set sel. sent_news st' (link n) = Some (timestamp b) \<and> pending st' (link n) = None"
    unfolding st' by (simp add: mark_sent_fst mark_sent_snd)
  moreover have "blocks st \<noteq> [] \<longrightarrow> previous b = Some (blockhash (last (blocks st)))"
    using b by simp
  moreover have "blocks st' = blocks st @ [b]"
    unfolding st' by simp
  ultimately show ?thesis using n by simp
qed

theorem build_marks_selected_witness:
  "let e = \<lparr>p_title = ''X'', p_link = ''https://a.example/1'', p_source = ''user-submission'',
            p_published = [], submitter = ''alice'', added_at = ''2025-11-06T11:59:00.250000+00:00'',
            p_iHash = create_iHash (Some ''X'') (Some ''https://a.example/1'')
                        (Some ''user-submission'') (Some [])\<rparr>;
       st = \<lparr>sent_news = Map.empty, pending = [''https://a.example/1'' \<mapsto> e],
             blocks = [create_genesis_block]\<rparr>;
       now = \<lparr>year = 2025, month = 11, day = 6, hour = 12, minute = 0, second = 0, microsecond = 417\<rparr>;
       a = \<lparr>it_title = Some ''X'', it_link = ''https://a.example/1'', it_source = Some ''user-submission'',
            it_published = Some [], it_summary = Some []\<rparr>
   in case build_block_from_items st now [a] 5 of
        Inr (Some b, st') \<Rightarrow>
          map link (news b) = [''https://a.example/1''] \<and>
          timestamp b = ''2025-11-06T12:00:00+00:00'' \<and>
          pending st ''https://a.example/1'' \<noteq> None \<and>
          sent_news st' ''https://a.example/1'' = Some ''2025-11-06T12:00:00+00:00'' \<and>
          pending st' ''https://a.example/1'' = None \<and>
          previous b = Some (blockhash create_genesis_block) \<and>
          blocks st' = [create_genesis_block, b]
      | _ \<Rightarrow> False"
proof -
  define e where "e = \<lparr>p_title = ''X'', p_link = ''https://a.example/1'', p_source = ''user-submission'',
            p_published = [], submitter = ''alice'', added_at = ''2025-11-06T11:59:00.250000+00:00'',
            p_iHash = create_iHash (Some ''X'') (Some ''https://a.example/1'')
                        (Some ''user-submission'') (Some [])\<rparr>"
  define st where "st = \<lparr>sent_news = Map.empty, pending = [''https://a.example/1'' \<mapsto> e],
             blocks = [create_genesis_block]\<rparr>"
  define now where "now = \<lparr>year = 2025, month = 11, day = 6, hour = 12, minute = 0, second = 0,
             microsecond = (417::nat)\<rparr>"
  define a where "a = \<lparr>it_title = Some ''X'', it_link = ''https://a.example/1'',
            it_source = Some ''user-submission'', it_published = Some [], it_summary = Some []\<rparr>"
  have ts: "isoformat_utc (now\<lparr>microsecond := 0\<rparr>) = ''2025-11-06T12:00:00+00:00''"
    unfolding now_def by code_simp
  obtain b st' where r: "build_block_from_items st now [a] 5 = Inr (Some b, st')"
    and n: "map link (news b) = [''https://a.example/1'']"
    and t: "timestamp b = ''2025-11-06T12:00:00+00:00''"
    by (simp add: build_block_from_items_def Let_def st_def a_def ts split: prod.splits)
  have p: "pending st ''https://a.example/1'' \<noteq> None"
    by (simp add: st_def)
  have g: "blocks st = [create_genesis_block]"
    by (simp add: st_def)
  from build_marks_selected [OF r] n t g
  have "sent_news st' ''https://a.example/1'' = Some ''2025-11-06T12:00:00+00:00'' \<and>
        pending st' ''https://a.example/1'' = None \<and>
        previous b = Some (blockhash create_genesis_block) \<and>
        blocks st' = [create_genesis_block, b]"
    by (cases "news b") auto
  with r n t p show ?thesis
    unfolding st_def e_def now_def a_def
    by (simp add: Let_def)
qed

text \<open>
  C7. When the link of every candidate is already in the dedup index, the build returns
  \<open>None\<close>: it raises nothing, builds no block, and leaves the ledger, the dedup index
  and the pending map as they were.
\<close>

theorem build_nothing_new:
  assumes "\<forall>it \<in> set items. sent_news st (it_link it) \<noteq> None"
  shows "build_block_from_items st now items max_news = Inr (None, st)"
  by (simp add: build_block_from_items_def select_items_all_sent [OF assms])

theorem build_nothing_new_witness:
  "let st = \<lparr>sent_news = [''https://a.example/1'' \<mapsto> ''2025-11-06T12:00:00+00:00'',
                           ''https://b.example/2'' \<mapsto> ''2025-11-06T12:00:00+00:00''],
             pending = Map.empty, blocks = [create_genesis_block]\<rparr>;
       now = \<lparr>year = 2025, month = 11, day = 7, hour = 9, minute = 30, second = 0, microsecond = 0\<rparr>;
       a = \<lparr>it_title = Some ''X'', it_link = ''https://a.example/1'', it_source = Some ''user-submission'',
            it_published = Some [], it_summary = Some []\<rparr>;
       b = \<lparr>it_title = None, it_link = ''https://b.example/2'', it_source = Some ''Wired'',
            it_published = None, it_summary = None\<rparr>
   in (\<forall>it \<in> set [a, b]. sent_news st (it_link it) \<noteq> None) \<and>
      build_block_from_items st now [a, b] 5 = Inr (None, st)"
proof -
  define st where "st = \<lparr>sent_news = [''https://a.example/1'' \<mapsto> ''2025-11-06T12:00:00+00:00'',
                           ''https://b.example/2'' \<mapsto> ''2025-11-06T12:00:00+00:00''],
             pending = (Map.empty :: string \<rightharpoonup> pending_entry), blocks = [create_genesis_block]\<rparr>"
  define now where "now = \<lparr>year = 2025, month = 11, day = 7, hour = 9, minute = 30, second = 0,
             microsecond = (0::nat)\<rparr>"
  define a where "a = \<lparr>it_title = Some ''X'', it_link = ''https://a.example/1'',
            it_source = Some ''user-submission'', it_published = Some [], it_summary = Some []\<rparr>"
  define b where "b = \<lparr>it_title = None, it_link = ''https://b.example/2'', it_source = Some ''Wired'',
            it_published = None, it_summary = None\<rparr>"
  have h: "\<forall>it \<in> set [a, b]. sent_news st (it_link it) \<noteq> None"
    by (simp add: st_def a_def b_def)
  from build_nothing_new [OF h, of now 5] h show ?thesis
    unfolding st_def now_def a_def b_def
    by (simp add: Let_def)
qed

text \<open>
  C8. The claim: a link in the pending map is refused as already pending, a link in the
  dedup index as already broadcast. The handler looks the link up in the dedup index
  first: a link that is in both is refused as already broadcast.
\<close>

theorem submit_pending_and_broadcast:
  "pending \<lparr>sent_news = [''https://a.example/1'' \<mapsto> ''2025-11-06T12:00:00+00:00''],
            pending = [''https://a.example/1'' \<mapsto>
              \<lparr>p_title = ''X'', p_link = ''https://a.example/1'', p_source = ''user-submission'',
               p_published = [], submitter = ''alice'', added_at = ''2025-11-06T11:59:00.250000+00:00'',
               p_iHash = ''8fca6d31cae250960d4f840e6a06f199a3eb67aad975939a5ca1a60759ae3874''\<rparr>],
            blocks = [create_genesis_block]\<rparr> ''https://a.example/1'' \<noteq> None \<and>
   fst (submit \<lparr>sent_news = [''https://a.example/1'' \<mapsto> ''2025-11-06T12:00:00+00:00''],
            pending = [''https://a.example/1'' \<mapsto>
              \<lparr>p_title = ''X'', p_link = ''https://a.example/1'', p_source = ''user-submission'',
               p_published = [], submitter = ''alice'', added_at = ''2025-11-06T11:59:00.250000+00:00'',
               p_iHash = ''8fca6d31cae250960d4f840e6a06f199a3eb67aad975939a5ca1a60759ae3874''\<rparr>],
            blocks = [create_genesis_block]\<rparr>
          [''https://a.example/1''] ''bob'' None
          \<lparr>year = 2025, month = 11, day = 7, hour = 9, minute = 30, second = 0, microsecond = 0\<rparr>)
     = AlreadyBroadcast \<and>
   AlreadyBroadcast \<noteq> AlreadyPending"
  by (simp add: submit_def strip_example Let_def)

text \<open>
  C8, amended. A link in the dedup index is refused as already broadcast; a link in the
  pending map and not in the dedup index is refused as already pending; both refusals
  leave the pending map and the dedup index as they were. Only a link in neither is
  put into the pending map, and the dedup index stays as it was.
\<close>

theorem submit_checks:
  assumes "args = a # rest"
  shows "(sent_news st (strip a) \<noteq> None \<longrightarrow>
            submit st args user parsed now = (AlreadyBroadcast, st)) \<and>
         (sent_news st (strip a) = None \<and> pending st (strip a) \<noteq> None \<longrightarrow>
            submit st args user parsed now = (AlreadyPending, st)) \<and>
         (sent_news st (strip a) = None \<and> pending st (strip a) = None \<longrightarrow>
            (\<exists>e. submit st args user parsed now =
                   (Submitted e, st\<lparr>pending := (pending st)(strip a \<mapsto> e)\<rparr>) \<and>
                 p_link e = strip a))"
  using assms by (auto simp: submit_def Let_def split: option.splits prod.splits)

theorem submit_checks_witness:
  "let now = \<lparr>year = 2025, month = 11, day = 7, hour = 9, minute = 30, second = 0, microsecond = 0\<rparr>;
       e = \<lparr>p_title = ''X'', p_link = ''https://a.example/1'', p_source = ''user-submission'',
            p_published = [], submitter = ''alice'', added_at = ''2025-11-06T11:59:00.250000+00:00'',
            p_iHash = ''8fca6d31cae250960d4f840e6a06f199a3eb67aad975939a5ca1a60759ae3874''\<rparr>;
       fresh = \<lparr>sent_news = Map.empty, pending = Map.empty, blocks = [create_genesis_block]\<rparr>;
       queued = \<lparr>sent_news = Map.empty, pending = [''https://a.example/1'' \<mapsto> e],
                 blocks = [create_genesis_block]\<rparr>;
       mined = \<lparr>sent_news = [''https://a.example/1'' \<mapsto> ''2025-11-06T12:00:00+00:00''],
                pending = Map.empty, blocks = [create_genesis_block]\<rparr>
   in submit mined [''https://a.example/1''] ''bob'' None now = (AlreadyBroadcast, mined) \<and>
      submit queued [''https://a.example/1''] ''bob'' None now = (AlreadyPending, queued) \<and>
      (case submit fresh [''https://a.example/1''] ''bob'' None now of
         (Submitted e', st') \<Rightarrow>
           sent_news st' = sent_news fresh \<and> pending st' = [''https://a.example/1'' \<mapsto> e'] \<and>
           p_link e' = ''https://a.example/1''
       | _ \<Rightarrow> False)"
proof -
  define now where "now = \<lparr>year = 2025, month = 11, day = 7, hour = 9, minute = 30, second = 0,
       microsecond = (0::nat)\<rparr>"
  define e where "e = \<lparr>p_title = ''X'', p_link = ''https://a.example/1'', p_source = ''user-submission'',
            p_published = [], submitter = ''alice'', added_at = ''2025-11-06T11:59:00.250000+00:00'',
            p_iHash = ''8fca6d31cae250960d4f840e6a06f199a3eb67aad975939a5ca1a60759ae3874''\<rparr>"
  define fresh where "fresh = \<lparr>sent_news = Map.empty,
       pending = (Map.empty :: string \<rightharpoonup> pending_entry), blocks = [create_genesis_block]\<rparr>"
  define queued where "queued = \<lparr>sent_news = Map.empty, pending = [''https://a.example/1'' \<mapsto> e],
                 blocks = [create_genesis_block]\<rparr>"
  define mined where "mined = \<lparr>sent_news = [''https://a.example/1'' \<mapsto> ''2025-11-06T12:00:00+00:00''],
                pending = (Map.empty :: string \<rightharpoonup> pending_entry), blocks = [create_genesis_block]\<rparr>"
  have args: "[''https://a.example/1''] = ''https://a.example/1'' # []" by simp
  have m: "submit mined [''https://a.example/1''] ''bob'' None now = (AlreadyBroadcast, mined)"
    using submit_checks [OF args, of mined "''bob''" None now]
    by (simp add: strip_example mined_def)
  have q: "submit queued [''https://a.example/1''] ''bob'' None now = (AlreadyPending, queued)"
    using submit_checks [OF args, of queued "''bob''" None now]
    by (simp add: strip_example queued_def)
  obtain e' where f: "submit fresh [''https://a.example/1''] ''bob'' None now =
      (Submitted e', fresh\<lparr>pending := (pending fresh)(''https://a.example/1'' \<mapsto> e')\<rparr>)"
    and l: "p_link e' = ''https://a.example/1''"
    using submit_checks [OF args, of fresh "''bob''" None now]
    by (auto simp: strip_example fresh_def)
  have "case submit fresh [''https://a.example/1''] ''bob'' None now of
         (Submitted e', st') \<Rightarrow>
           sent_news st' = sent_news fresh \<and> pending st' = [''https://a.example/1'' \<mapsto> e'] \<and>
           p_link e' = ''https://a.example/1''
       | _ \<Rightarrow> False"
    unfolding f using l by (simp add: fresh_def)
  with m q show ?thesis
    unfolding now_def e_def fresh_def queued_def mined_def
    by (simp add: Let_def)
qed

text \<open>
  C9. The claim: after the pruning at load time every entry of the dedup index older
  than 30 days is absent and every younger one is kept. The build stamps an entry with
  the UTC clock; \<open>init_storage\<close> takes the cutoff from \<open>datetime.now()\<close>, the clock of
  the host's zone, and compares the two as strings. At one instant, 12:00 UTC on
  2025-11-06, when the cutoff by the UTC clock is 12:00 on 2025-10-07: on a host nine
  hours ahead of UTC an entry stamped 15:00 UTC that day, 29 days 21 hours old, is
  pruned; on a host five hours behind UTC an entry stamped 09:00 UTC that day, 30 days
  3 hours old, is kept.
\<close>

theorem prune_mixes_clocks:
  "let utc_now = \<lparr>year = 2025, month = 11, day = 6, hour = 12, minute = 0, second = 0, microsecond = 0\<rparr>;
       cutoff = \<lparr>year = 2025, month = 10, day = 7, hour = 12, minute = 0, second = 0, microsecond = 0\<rparr>;
       young = \<lparr>year = 2025, month = 10, day = 7, hour = 15, minute = 0, second = 0, microsecond = 0\<rparr>;
       old = \<lparr>year = 2025, month = 10, day = 7, hour = 9, minute = 0, second = 0, microsecond = 0\<rparr>;
       tokyo = \<lparr>year = 2025, month = 11, day = 6, hour = 21, minute = 0, second = 0, microsecond = 0\<rparr>;
       new_york = \<lparr>year = 2025, month = 11, day = 6, hour = 7, minute = 0, second = 0, microsecond = 0\<rparr>
   in minus_days utc_now 30 = Inr cutoff \<and>
      dt_fields cutoff < dt_fields young \<and>
      isoformat_utc young = ''2025-10-07T15:00:00+00:00'' \<and>
      local_reading 9 utc_now = Inr tokyo \<and>
      (case init_storage tokyo [''https://a.example/young'' \<mapsto> ''2025-10-07T15:00:00+00:00'']
              Map.empty [] of
         Inl e \<Rightarrow> False
       | Inr st \<Rightarrow> sent_news st ''https://a.example/young'' = None) \<and>
      dt_fields old < dt_fields cutoff \<and>
      isoformat_utc old = ''2025-10-07T09:00:00+00:00'' \<and>
      local_reading (- 5) utc_now = Inr new_york \<and>
      (case init_storage new_york [''https://a.example/old'' \<mapsto> ''2025-10-07T09:00:00+00:00'']
              Map.empty [] of
         Inl e \<Rightarrow> False
       | Inr st \<Rightarrow> sent_news st ''https://a.example/old'' = Some ''2025-10-07T09:00:00+00:00'')"
proof -
  define young where "young = \<lparr>year = 2025, month = 10, day = 7, hour = 15, minute = 0, second = 0,
      microsecond = (0::nat)\<rparr>"
  define old where "old = \<lparr>year = 2025, month = 10, day = 7, hour = 9, minute = 0, second = 0,
      microsecond = (0::nat)\<rparr>"
  define tokyo where "tokyo = \<lparr>year = 2025, month = 11, day = 6, hour = 21, minute = 0, second = 0,
      microsecond = (0::nat)\<rparr>"
  define new_york where "new_york = \<lparr>year = 2025, month = 11, day = 6, hour = 7, minute = 0,
      second = 0, microsecond = (0::nat)\<rparr>"
  have v: "valid_datetime young" "valid_datetime old" "valid_datetime tokyo" "valid_datetime new_york"
    by (simp_all add: young_def old_def tokyo_def new_york_def valid_datetime_def days_in_month_def)
  have sy: "isoformat_utc young = ''2025-10-07T15:00:00+00:00''"
    unfolding young_def by code_simp
  have so: "isoformat_utc old = ''2025-10-07T09:00:00+00:00''"
    unfolding old_def by code_simp
  have ct: "minus_days tokyo 30 =
      Inr \<lparr>year = 2025, month = 10, day = 7, hour = 21, minute = 0, second = 0, microsecond = 0\<rparr>"
    unfolding tokyo_def by (rule minus_days_tokyo)
  have cn: "minus_days new_york 30 =
      Inr \<lparr>year = 2025, month = 10, day = 7, hour = 7, minute = 0, second = 0, microsecond = 0\<rparr>"
    unfolding new_york_def by (rule minus_days_new_york)
  obtain st1 where i1: "init_storage tokyo
      [''https://a.example/young'' \<mapsto> ''2025-10-07T15:00:00+00:00'']
      (Map.empty :: string \<rightharpoonup> pending_entry) [] = Inr st1"
    by (simp add: init_storage_def ct)
  have l1: "[''https://a.example/young'' \<mapsto> ''2025-10-07T15:00:00+00:00'']
      ''https://a.example/young'' = Some (isoformat_utc young)"
    by (simp add: sy)
  have r1: "sent_news st1 ''https://a.example/young'' = None"
    using prune_by_reading [OF i1 v(3) l1 v(1)] ct by (simp add: young_def dt_fields_def)
  obtain st2 where i2: "init_storage new_york
      [''https://a.example/old'' \<mapsto> ''2025-10-07T09:00:00+00:00'']
      (Map.empty :: string \<rightharpoonup> pending_entry) [] = Inr st2"
    by (simp add: init_storage_def cn)
  have l2: "[''https://a.example/old'' \<mapsto> ''2025-10-07T09:00:00+00:00'']
      ''https://a.example/old'' = Some (isoformat_utc old)"
    by (simp add: so)
  have r2: "sent_news st2 ''https://a.example/old'' = Some ''2025-10-07T09:00:00+00:00''"
    using prune_by_reading [OF i2 v(4) l2 v(2)] cn so by (simp add: old_def dt_fields_def)
  show ?thesis
    using i1 r1 i2 r2 sy so minus_days_example local_reading_tokyo local_reading_new_york
    unfolding young_def old_def tokyo_def new_york_def
    by (simp add: Let_def dt_fields_def)
qed

text \<open>
  C10. Two candidates with the same link that is not in the dedup index, and with
  different titles, are both selected by one build: the block holds two entries with the
  same link. Within one build only the \<open>iHash\<close> values are compared; the link is looked
  up in the dedup index, which changes only after the selection.
\<close>

theorem same_link_twice_in_one_block:
  "let st = \<lparr>sent_news = Map.empty, pending = Map.empty, blocks = [create_genesis_block]\<rparr>;
       now = \<lparr>year = 2025, month = 11, day = 6, hour = 12, minute = 0, second = 0, microsecond = 0\<rparr>;
       a = \<lparr>it_title = Some ''X'', it_link = ''https://a.example/1'', it_source = Some ''user-submission'',
            it_published = Some [], it_summary = Some []\<rparr>;
       b = \<lparr>it_title = Some ''Y'', it_link = ''https://a.example/1'', it_source = Some ''user-submission'',
            it_published = Some [], it_summary = Some []\<rparr>
   in sent_news st ''https://a.example/1'' = None \<and>
      (case build_block_from_items st now [a, b] 5 of
         Inr (Some blk, st') \<Rightarrow>
           map link (news blk) = [''https://a.example/1'', ''https://a.example/1''] \<and>
           map title (news blk) = [''X'', ''Y''] \<and>
           map iHash (news blk) =
             [''8fca6d31cae250960d4f840e6a06f199a3eb67aad975939a5ca1a60759ae3874'',
              ''6576ca76f1895a9ffac620cb2d575a0922f9008ffddfb8676c88e19245e676e4'']
       | _ \<Rightarrow> False)"
  by (simp add: build_block_from_items_def Let_def iHash_X iHash_Y split: prod.splits)

end
